theory Spec2Isabelle
  imports Complex_Main "HOL-Library.Char_ord" "HOL-Library.List_Lexorder"
begin

section \<open>Data model of \<^verbatim>\<open>cohort_visualization.py\<close>\<close>

text \<open>
  The class \<^verbatim>\<open>UserCohortSystem\<close> keeps a table of events (a pandas DataFrame built
  from a list of dictionaries), the instant \<^verbatim>\<open>now\<close> and a list of cohort dictionaries.

  \<^item> A row of the event table is a record; the table is the list of its rows.
  \<^item> An instant is the number of microseconds (the resolution of \<^verbatim>\<open>datetime\<close>) since
    \<^verbatim>\<open>datetime.min\<close>, the first instant of the year 1. The instants a \<^verbatim>\<open>datetime\<close> can hold
    end with \<^verbatim>\<open>datetime.max\<close>, the last microsecond of the year 9999; arithmetic that
    leaves this range raises \<^verbatim>\<open>OverflowError\<close>, and so does a \<^verbatim>\<open>timedelta\<close> of more than
    999999999 days.
  \<^item> Numbers (prices, thresholds, aggregates) are finite and hence rationals; a missing
    price (\<^verbatim>\<open>None\<close>, then \<^verbatim>\<open>NaN\<close> after \<^verbatim>\<open>pd.to_numeric\<close>) is \<open>None\<close>. The sum and the
    mean that pandas computes from the prices of a group are rounded (or, for a column
    of integers, wrapped) results of machine arithmetic: they are not computed here but
    taken as two functions of the list of the prices, about which nothing is assumed.
    Counts are exact. A threshold is a number that the comparison with an aggregate
    reads without rounding: a float, or an integer of magnitude below \<open>2\<^sup>5\<^sup>3\<close>.
  \<^item> The comparison of the \<^verbatim>\<open>timestamp\<close> column with the cutoff is defined for every
    \<^verbatim>\<open>datetime\<close>, as it is from pandas 2 on.
  \<^item> A condition dictionary is a record. The keys the code reads with a subscript
    (\<^verbatim>\<open>action\<close>, \<^verbatim>\<open>operation\<close>, \<^verbatim>\<open>condition\<close>, \<^verbatim>\<open>value\<close>) are plain fields; the keys it
    reads with \<^verbatim>\<open>.get\<close> (\<^verbatim>\<open>property\<close>, \<^verbatim>\<open>timeframe\<close>, \<^verbatim>\<open>include\<close>, \<^verbatim>\<open>logic\<close>) are
    optional fields, \<open>None\<close> standing for an absent key (and, for \<^verbatim>\<open>logic\<close>, also for
    the value \<^verbatim>\<open>None\<close>). The key \<^verbatim>\<open>condition\<close> is the field \<open>comparator\<close>, \<^verbatim>\<open>value\<close> is
    \<open>val\<close> and \<^verbatim>\<open>include\<close> is \<open>incl\<close>.
  \<^item> Strings are byte strings; their order is the lexicographic order of the bytes.
\<close>

record user_event =
  user_id :: string
  event :: string
  timestamp :: int
  price :: "rat option"
  category :: string
  sku_id :: string
  brand :: string

record condition =
  incl :: "bool option"
  action :: string
  operation :: string
  property :: "string option"
  comparator :: string
  val :: rat
  timeframe :: "int option"
  logic :: "string option"

record cohort =
  cohort_id :: int
  name :: string
  description :: string
  conditions :: "condition list"
  active :: "bool option"

record user_cohort_system =
  cohorts :: "cohort list"
  now :: int
  user_events :: "user_event list"

text \<open>The machine arithmetic of pandas on the prices of one group: the sum and the
  mean of a list of present prices, as the library computes them.\<close>

record float_ops =
  float_sum :: "rat list \<Rightarrow> rat"
  float_mean :: "rat list \<Rightarrow> rat"

text \<open>The exceptions the evaluation can meet on such data: pandas raises \<^verbatim>\<open>KeyError\<close>
  when a column that the table does not have is selected, and the datetime library
  raises \<^verbatim>\<open>OverflowError\<close>.\<close>

datatype error = KeyError string | OverflowError

text \<open>A cell of the event table, as far as \<^verbatim>\<open>nunique\<close> has to tell values apart.\<close>

datatype cell = Str string | Num rat | Instant int

section \<open>The datetime operations the evaluation uses\<close>

text \<open>\<^verbatim>\<open>datetime.max\<close>: the year 9999 ends 3652059 days after \<^verbatim>\<open>datetime.min\<close>.\<close>

definition max_instant :: int where
  "max_instant = 3652059 * 86400000000 - 1"

text \<open>\<^verbatim>\<open>timedelta(days=d)\<close>, in microseconds.\<close>

definition timedelta_days :: "int \<Rightarrow> error + int" where
  "timedelta_days d =
     (if 999999999 < \<bar>d\<bar> then Inl OverflowError else Inr (d * 86400000000))"

text \<open>\<^verbatim>\<open>t - delta\<close> for a \<^verbatim>\<open>datetime\<close> and a \<^verbatim>\<open>timedelta\<close>.\<close>

definition datetime_minus :: "int \<Rightarrow> int \<Rightarrow> error + int" where
  "datetime_minus t delta =
     (if t - delta < 0 \<or> max_instant < t - delta then Inl OverflowError
      else Inr (t - delta))"

section \<open>The pandas operations the evaluation uses\<close>

text \<open>\<^verbatim>\<open>filtered[target_prop]\<close>: the column of that name, \<open>None\<close> when the table has no
  such column. A cell is \<open>None\<close> when the value is missing.\<close>

definition column :: "string \<Rightarrow> (user_event \<Rightarrow> cell option) option" where
  "column p =
     (if p = ''user_id'' then Some (\<lambda>e. Some (Str (user_id e)))
      else if p = ''event'' then Some (\<lambda>e. Some (Str (event e)))
      else if p = ''timestamp'' then Some (\<lambda>e. Some (Instant (timestamp e)))
      else if p = ''price'' then Some (\<lambda>e. map_option Num (price e))
      else if p = ''category'' then Some (\<lambda>e. Some (Str (category e)))
      else if p = ''sku_id'' then Some (\<lambda>e. Some (Str (sku_id e)))
      else if p = ''brand'' then Some (\<lambda>e. Some (Str (brand e)))
      else None)"

text \<open>\<^verbatim>\<open>groupby("user_id")\<close>: one group per user, keys in ascending order, each group
  holding the user's rows.\<close>

definition groupby_user_id :: "user_event list \<Rightarrow> (string \<times> user_event list) list" where
  "groupby_user_id es =
     map (\<lambda>u. (u, filter (\<lambda>e. user_id e = u) es)) (sort (remdups (map user_id es)))"

text \<open>The values that are present in a list of cells (pandas aggregations skip missing
  values).\<close>

fun present :: "'a option list \<Rightarrow> 'a list" where
  "present [] = []"
| "present (None # xs) = present xs"
| "present (Some x # xs) = x # present xs"

text \<open>\<^verbatim>\<open>.size()\<close>: the number of rows of each group.\<close>

definition group_size :: "(string \<times> user_event list) list \<Rightarrow> (string \<times> rat) list" where
  "group_size gs = map (\<lambda>(u, g). (u, of_nat (length g))) gs"

text \<open>\<^verbatim>\<open>["price"].sum()\<close>: the sum of the prices that are present; 0 for a group with
  none.\<close>

definition group_sum ::
  "float_ops \<Rightarrow> (string \<times> user_event list) list \<Rightarrow> (string \<times> rat option) list" where
  "group_sum ops gs =
     map (\<lambda>(u, g). (u, let ps = present (map price g)
                      in Some (if ps = [] then 0 else float_sum ops ps))) gs"

text \<open>\<^verbatim>\<open>["price"].mean()\<close>: the mean of the prices that are present; missing (\<^verbatim>\<open>NaN\<close>) for
  a group with none.\<close>

definition group_mean ::
  "float_ops \<Rightarrow> (string \<times> user_event list) list \<Rightarrow> (string \<times> rat option) list" where
  "group_mean ops gs =
     map (\<lambda>(u, g). (u, let ps = present (map price g)
                      in if ps = [] then None else Some (float_mean ops ps))) gs"

text \<open>\<^verbatim>\<open>[target_prop].nunique()\<close>: the number of distinct present values of a column.\<close>

definition group_nunique ::
  "(user_event \<Rightarrow> cell option) \<Rightarrow> (string \<times> user_event list) list \<Rightarrow> (string \<times> rat) list" where
  "group_nunique col gs = map (\<lambda>(u, g). (u, of_nat (length (remdups (present (map col g)))))) gs"

text \<open>\<^verbatim>\<open>.fillna(0)\<close> on the aggregated series of the \<^verbatim>\<open>sum\<close> and \<^verbatim>\<open>avg\<close> branches.\<close>

definition fillna0 :: "(string \<times> rat option) list \<Rightarrow> (string \<times> rat) list" where
  "fillna0 grp = map (\<lambda>(u, x). (u, case x of None \<Rightarrow> 0 | Some y \<Rightarrow> y)) grp"

text \<open>\<^verbatim>\<open>set(grp[grp >= v].index)\<close> and its four siblings.\<close>

definition index_where :: "(rat \<Rightarrow> bool) \<Rightarrow> (string \<times> rat) list \<Rightarrow> string set" where
  "index_where P grp = set (map fst (filter (\<lambda>(u, x). P x) grp))"

text \<open>\<^verbatim>\<open>str.upper()\<close> on the ASCII letters. Bytes outside \<^verbatim>\<open>a\<close>..\<^verbatim>\<open>z\<close> are left as they
  are: the upper-case form of a character outside ASCII never consists of letters of
  \<^verbatim>\<open>AND\<close> and \<^verbatim>\<open>OR\<close> alone, so the comparisons of the result with these two strings
  are those of Python.\<close>

definition upper_char :: "char \<Rightarrow> char" where
  "upper_char c =
     (case map_of (zip ''abcdefghijklmnopqrstuvwxyz'' ''ABCDEFGHIJKLMNOPQRSTUVWXYZ'') c of
        None \<Rightarrow> c
      | Some C \<Rightarrow> C)"

definition upper :: "string \<Rightarrow> string" where
  "upper s = map upper_char s"

section \<open>\<^verbatim>\<open>_users_meeting_condition\<close>\<close>

text \<open>Lines 368 and 369: \<^verbatim>\<open>int(condition.get("timeframe", 30))\<close> and the cutoff instant
  \<^verbatim>\<open>self.now - timedelta(days=timeframe)\<close>.\<close>

definition cutoff :: "user_cohort_system \<Rightarrow> condition \<Rightarrow> error + int" where
  "cutoff s c =
     (case timedelta_days (case timeframe c of None \<Rightarrow> 30 | Some d \<Rightarrow> d) of
        Inl e \<Rightarrow> Inl e
      | Inr delta \<Rightarrow> datetime_minus (now s) delta)"

text \<open>Lines 372 to 374: the rows of the condition's action that are not older than the
  cutoff \<open>t\<close>.\<close>

definition filtered :: "user_cohort_system \<Rightarrow> condition \<Rightarrow> int \<Rightarrow> user_event list" where
  "filtered s c t = filter (\<lambda>e. event e = action c \<and> t \<le> timestamp e) (user_events s)"

text \<open>The chain of comparisons on the key \<^verbatim>\<open>condition\<close>, which the source repeats word
  for word in each of its five branches.\<close>

definition compare_users :: "condition \<Rightarrow> (string \<times> rat) list \<Rightarrow> string set" where
  "compare_users c grp =
     (if comparator c = ''>='' then index_where (\<lambda>x. val c \<le> x) grp
      else if comparator c = ''>'' then index_where (\<lambda>x. val c < x) grp
      else if comparator c = ''<='' then index_where (\<lambda>x. x \<le> val c) grp
      else if comparator c = ''<'' then index_where (\<lambda>x. x < val c) grp
      else if comparator c = ''=='' then index_where (\<lambda>x. x = val c) grp
      else {})"

text \<open>Line 367, \<^verbatim>\<open>condition.get("property", "")\<close>, and line 429, the column that
  \<^verbatim>\<open>distinct_count\<close> counts.\<close>

definition prop_of :: "condition \<Rightarrow> string" where
  "prop_of c = (case property c of None \<Rightarrow> [] | Some p \<Rightarrow> p)"

definition target_prop :: "condition \<Rightarrow> string" where
  "target_prop c = (if prop_of c \<noteq> [] then prop_of c else ''sku_id'')"

text \<open>Lines 375 to 459: the early return on an empty filter and the branches on the
  operation, for the cutoff \<open>t\<close>.\<close>

definition matching_users ::
  "float_ops \<Rightarrow> user_cohort_system \<Rightarrow> condition \<Rightarrow> int \<Rightarrow> error + string set" where
  "matching_users ops s c t =
     (let flt = filtered s c t
      in if flt = [] then Inr {}
         else if operation c = ''count'' then
           Inr (compare_users c (group_size (groupby_user_id flt)))
         else if operation c = ''sum'' \<and> prop_of c = ''price'' then
           Inr (compare_users c (fillna0 (group_sum ops (groupby_user_id flt))))
         else if operation c = ''avg'' \<and> prop_of c = ''price'' then
           Inr (compare_users c (fillna0 (group_mean ops (groupby_user_id flt))))
         else if operation c = ''distinct_count'' then
           (case column (target_prop c) of
              None \<Rightarrow> Inl (KeyError (target_prop c))
            | Some col \<Rightarrow>
                Inr (compare_users c (group_nunique col (groupby_user_id flt))))
         else
           Inr (compare_users c (group_size (groupby_user_id flt))))"

text \<open>The whole function: the cutoff is computed first, and its exception leaves the
  function.\<close>

definition users_meeting_condition ::
  "float_ops \<Rightarrow> user_cohort_system \<Rightarrow> condition \<Rightarrow> error + string set" where
  "users_meeting_condition ops s c =
     (case cutoff s c of
        Inl e \<Rightarrow> Inl e
      | Inr t \<Rightarrow> matching_users ops s c t)"

section \<open>\<^verbatim>\<open>execute_cohort\<close> and \<^verbatim>\<open>get_cohort_users\<close>\<close>

definition universe :: "user_cohort_system \<Rightarrow> string set" where
  "universe s = set (map user_id (user_events s))"

text \<open>Lines 478 to 484: the raw matches of a condition, complemented in the universe
  when \<^verbatim>\<open>cond.get("include", True)\<close> is false.\<close>

definition cond_users :: "float_ops \<Rightarrow> user_cohort_system \<Rightarrow> condition \<Rightarrow> error + string set" where
  "cond_users ops s c =
     (case users_meeting_condition ops s c of
        Inl e \<Rightarrow> Inl e
      | Inr met_users \<Rightarrow>
          Inr (if (case incl c of None \<Rightarrow> True | Some b \<Rightarrow> b) then met_users
               else universe s - met_users))"

text \<open>Lines 492 to 499: \<^verbatim>\<open>(cond.get("logic") or "AND").upper()\<close> and the three branches
  on it.\<close>

definition combine :: "string set \<Rightarrow> condition \<Rightarrow> string set \<Rightarrow> string set" where
  "combine current_set c cu =
     (let lg = upper (case logic c of None \<Rightarrow> ''AND'' | Some l \<Rightarrow> if l = [] then ''AND'' else l)
      in if lg = ''AND'' then current_set \<inter> cu
         else if lg = ''OR'' then current_set \<union> cu
         else current_set \<inter> cu)"

text \<open>The loop of lines 477 to 499 over the conditions; \<open>None\<close> is the accumulator
  before the first condition.\<close>

fun cohort_loop ::
  "float_ops \<Rightarrow> user_cohort_system \<Rightarrow> string set option \<Rightarrow> condition list \<Rightarrow>
     error + string set option" where
  "cohort_loop ops s current_set [] = Inr current_set"
| "cohort_loop ops s current_set (c # cs) =
     (case cond_users ops s c of
        Inl e \<Rightarrow> Inl e
      | Inr cu \<Rightarrow>
          cohort_loop ops s
            (Some (case current_set of None \<Rightarrow> cu | Some a \<Rightarrow> combine a c cu)) cs)"

definition execute_cohort :: "float_ops \<Rightarrow> user_cohort_system \<Rightarrow> cohort \<Rightarrow> error + string list" where
  "execute_cohort ops s co =
     (if conditions co = [] then Inr []
      else case cohort_loop ops s None (conditions co) of
             Inl e \<Rightarrow> Inl e
           | Inr None \<Rightarrow> Inr []
           | Inr (Some a) \<Rightarrow> Inr (sorted_list_of_set a))"

text \<open>Lines 523 to 527: the first cohort of the list with the identifier, if it is
  active.\<close>

definition get_cohort_users :: "float_ops \<Rightarrow> user_cohort_system \<Rightarrow> int \<Rightarrow> error + string list" where
  "get_cohort_users ops s cid =
     (case find (\<lambda>c. cohort_id c = cid) (cohorts s) of
        None \<Rightarrow> Inr []
      | Some co \<Rightarrow>
          if \<not> (case active co of None \<Rightarrow> False | Some b \<Rightarrow> b) then Inr []
          else execute_cohort ops s co)"

section \<open>Notions used to state the properties\<close>

text \<open>The comparison a condition asks for, as a predicate on a user's aggregate; an
  unknown comparator is satisfied by nothing.\<close>

definition satisfies :: "condition \<Rightarrow> rat \<Rightarrow> bool" where
  "satisfies c x =
     (if comparator c = ''>='' then val c \<le> x
      else if comparator c = ''>'' then val c < x
      else if comparator c = ''<='' then x \<le> val c
      else if comparator c = ''<'' then x < val c
      else if comparator c = ''=='' then x = val c
      else False)"

text \<open>The rows of one user among the matching events.\<close>

definition user_rows :: "string \<Rightarrow> user_event list \<Rightarrow> user_event list" where
  "user_rows u es = filter (\<lambda>e. user_id e = u) es"

text \<open>The names of the columns of the event table (the keys of the dictionaries of
  \<^verbatim>\<open>generate_sample_data\<close>).\<close>

definition event_columns :: "string set" where
  "event_columns =
     {''user_id'', ''event'', ''timestamp'', ''price'', ''category'', ''sku_id'', ''brand''}"

text \<open>The \<^verbatim>\<open>logic\<close> tokens that make the fold take a union: \<^verbatim>\<open>OR\<close> in any letter
  case.\<close>

definition joins_by_union :: "condition \<Rightarrow> bool" where
  "joins_by_union c = (logic c \<in> {Some ''OR'', Some ''Or'', Some ''oR'', Some ''or''})"

text \<open>The mean, as pandas computes it, of the prices that are present among some rows;
  0 when none is.\<close>

definition mean_present :: "float_ops \<Rightarrow> user_event list \<Rightarrow> rat" where
  "mean_present ops g =
     (let ps = present (map price g) in if ps = [] then 0 else float_mean ops ps)"

text \<open>The mean as the specification words it: a missing price counts as a price of 0,
  in the sum and in the number of rows.\<close>

definition mean_zero_filled :: "float_ops \<Rightarrow> user_event list \<Rightarrow> rat" where
  "mean_zero_filled ops g =
     float_mean ops (map (\<lambda>e. case price e of None \<Rightarrow> 0 | Some p \<Rightarrow> p) g)"

text \<open>A condition evaluates without an exception: its cutoff is an instant a
  \<^verbatim>\<open>datetime\<close> can hold and, if it counts the distinct values of a property over at least
  one matching event, that property is a column of the event table.\<close>

definition evaluates :: "user_cohort_system \<Rightarrow> condition \<Rightarrow> bool" where
  "evaluates s c =
     (case cutoff s c of
        Inl e \<Rightarrow> False
      | Inr t \<Rightarrow>
          \<not> (operation c = ''distinct_count'' \<and> filtered s c t \<noteq> [] \<and>
             target_prop c \<notin> event_columns))"

section \<open>A small event table\<close>

text \<open>\<^verbatim>\<open>now\<close> is the start of day 739000 after \<^verbatim>\<open>datetime.min\<close>, in April 2024. User A
  added two items to the cart, one and two days before, the second without a price;
  user B added one item and viewed one product the day before; user C added one item
  fifty days before, outside every window used below. On these prices the machine sum
  and mean are exact.\<close>

definition exact_ops :: float_ops where
  "exact_ops =
     \<lparr>float_sum = sum_list, float_mean = (\<lambda>ps. sum_list ps / of_nat (length ps))\<rparr>"

definition mk_event :: "string \<Rightarrow> string \<Rightarrow> int \<Rightarrow> rat option \<Rightarrow> string \<Rightarrow> user_event" where
  "mk_event u a t p k =
     \<lparr>user_id = u, event = a, timestamp = t * 86400000000, price = p,
      category = ''electronics'', sku_id = k, brand = ''Nike''\<rparr>"

definition mk_condition ::
  "bool \<Rightarrow> string \<Rightarrow> string \<Rightarrow> string \<Rightarrow> string \<Rightarrow> rat \<Rightarrow> string option \<Rightarrow> condition" where
  "mk_condition i a op p cmp v l =
     \<lparr>incl = Some i, action = a, operation = op, property = Some p, comparator = cmp,
      val = v, timeframe = Some 7, logic = l\<rparr>"

definition ex_events :: "user_event list" where
  "ex_events =
     [mk_event ''A'' ''cart_added'' 738999 (Some 1000) ''SKU1'',
      mk_event ''A'' ''cart_added'' 738998 None ''SKU2'',
      mk_event ''B'' ''cart_added'' 738999 (Some 500) ''SKU1'',
      mk_event ''B'' ''PDP_view'' 738999 None ''SKU1'',
      mk_event ''C'' ''cart_added'' 738950 (Some 9000) ''SKU3'']"

definition ex_cart_twice :: condition where
  "ex_cart_twice = mk_condition True ''cart_added'' ''count'' ''events'' ''>='' 2 (Some ''AND'')"

definition ex_view_or :: condition where
  "ex_view_or = mk_condition True ''PDP_view'' ''count'' ''events'' ''>='' 1 (Some ''or'')"

definition ex_cohort :: cohort where
  "ex_cohort =
     \<lparr>cohort_id = 1, name = ''Cart or view'', description = ''two conditions'',
      conditions = [ex_cart_twice, ex_view_or], active = Some True\<rparr>"

definition ex_inactive :: cohort where
  "ex_inactive = ex_cohort\<lparr>cohort_id := 2, active := Some False\<rparr>"

definition ex_system :: user_cohort_system where
  "ex_system =
     \<lparr>cohorts = [ex_cohort, ex_inactive], now = 739000 * 86400000000,
      user_events = ex_events\<rparr>"

text \<open>Conditions on the cart events of the last seven days, used as concrete inputs.\<close>

definition ex_median :: condition where
  "ex_median = mk_condition True ''cart_added'' ''median'' ''price'' ''>='' 2 None"

definition ex_sum_events :: condition where
  "ex_sum_events = mk_condition True ''cart_added'' ''sum'' ''events'' ''>='' 2 None"

definition ex_unknown_cmp :: condition where
  "ex_unknown_cmp = mk_condition True ''cart_added'' ''distinct_count'' ''sku_id'' ''!='' 2 None"

definition ex_distinct_events :: condition where
  "ex_distinct_events = mk_condition True ''cart_added'' ''distinct_count'' ''events'' ''!='' 2 None"

definition ex_payment :: condition where
  "ex_payment = mk_condition False ''payment_successful'' ''count'' ''events'' ''>='' 1 None"

definition ex_avg :: condition where
  "ex_avg = mk_condition True ''cart_added'' ''avg'' ''price'' ''>='' 750 None"

definition ex_exclude :: condition where
  "ex_exclude = mk_condition False ''cart_added'' ''count'' ''events'' ''>='' 2 None"

definition ex_sum_price :: condition where
  "ex_sum_price = mk_condition True ''cart_added'' ''sum'' ''price'' ''>='' 400 None"

text \<open>The same conditions with a window of a million days, which reaches back beyond
  the year 1, and a cohort of one condition that counts a property the table lacks.\<close>

definition ex_median_far :: condition where
  "ex_median_far = ex_median\<lparr>timeframe := Some 1000000\<rparr>"

definition ex_unknown_cmp_far :: condition where
  "ex_unknown_cmp_far = ex_unknown_cmp\<lparr>timeframe := Some 1000000\<rparr>"

definition ex_payment_far :: condition where
  "ex_payment_far = ex_payment\<lparr>timeframe := Some 1000000\<rparr>"

definition ex_distinct_cohort :: cohort where
  "ex_distinct_cohort = ex_cohort\<lparr>cohort_id := 3, conditions := [ex_distinct_events]\<rparr>"

section \<open>Facts about the pandas operations\<close>

lemma index_where_map: "index_where P (map (\<lambda>u. (u, f u)) ks) = {u \<in> set ks. P (f u)}"
  by (induction ks) (auto simp: index_where_def)

lemma compare_users_satisfies: "compare_users c grp = index_where (satisfies c) grp"
  by (auto simp: compare_users_def satisfies_def index_where_def)

lemma compare_users_rows:
  "compare_users c (map (\<lambda>u. (u, f u)) (sort (remdups (map user_id es)))) =
     {u \<in> user_id ` set es. satisfies c (f u)}"
  by (simp add: compare_users_satisfies index_where_map)

lemma compare_users_Nil: "compare_users c [] = {}"
  by (simp add: compare_users_def index_where_def)

lemma groupby_Nil: "groupby_user_id [] = []"
  by (simp add: groupby_user_id_def)

lemma group_size_rows:
  "group_size (groupby_user_id es) =
     map (\<lambda>u. (u, of_nat (length (user_rows u es)))) (sort (remdups (map user_id es)))"
  by (simp add: group_size_def groupby_user_id_def user_rows_def o_def)

lemma group_nunique_rows:
  "group_nunique col (groupby_user_id es) =
     map (\<lambda>u. (u, of_nat (length (remdups (present (map col (user_rows u es)))))))
       (sort (remdups (map user_id es)))"
  by (simp add: group_nunique_def groupby_user_id_def user_rows_def o_def)

lemma group_sum_rows:
  "fillna0 (group_sum ops (groupby_user_id es)) =
     map (\<lambda>u. (u, let ps = present (map price (user_rows u es))
                  in if ps = [] then 0 else float_sum ops ps))
       (sort (remdups (map user_id es)))"
  by (simp add: fillna0_def group_sum_def groupby_user_id_def user_rows_def o_def Let_def)

lemma group_mean_rows:
  "fillna0 (group_mean ops (groupby_user_id es)) =
     map (\<lambda>u. (u, mean_present ops (user_rows u es))) (sort (remdups (map user_id es)))"
  by (simp add: fillna0_def group_mean_def groupby_user_id_def user_rows_def o_def Let_def
      mean_present_def)

lemma column_defined: "column p \<noteq> None \<longleftrightarrow> p \<in> event_columns"
  by (simp add: column_def event_columns_def)

lemma index_where_mono: "(\<And>x. P x \<Longrightarrow> Q x) \<Longrightarrow> index_where P grp \<subseteq> index_where Q grp"
  by (auto simp: index_where_def)

lemma compare_users_ge:
  "comparator c = ''>='' \<Longrightarrow> compare_users (c\<lparr>val := v\<rparr>) grp = index_where (\<lambda>x. v \<le> x) grp"
  by (simp add: compare_users_def)

lemma compare_users_ge_mono:
  assumes "comparator c = ''>=''" and "v1 \<le> v2"
  shows "compare_users (c\<lparr>val := v2\<rparr>) grp \<subseteq> compare_users (c\<lparr>val := v1\<rparr>) grp"
proof -
  have "index_where (\<lambda>x. v2 \<le> x) grp \<subseteq> index_where (\<lambda>x. v1 \<le> x) grp"
    using assms(2) by (intro index_where_mono) simp
  with assms(1) show ?thesis
    by (simp add: compare_users_ge)
qed

lemma find_first:
  "\<forall>p \<in> set pre. \<not> P p \<Longrightarrow> P x \<Longrightarrow> find P (pre @ x # post) = Some x"
  by (induction pre) auto

section \<open>Facts about the raw-match evaluation\<close>

lemma users_meeting_condition_Inr:
  "users_meeting_condition ops s c = Inr S \<longleftrightarrow>
     (\<exists>t. cutoff s c = Inr t \<and> matching_users ops s c t = Inr S)"
  by (auto simp: users_meeting_condition_def split: sum.splits)

lemma users_meeting_condition_at:
  "cutoff s c = Inr t \<Longrightarrow> users_meeting_condition ops s c = matching_users ops s c t"
  by (simp add: users_meeting_condition_def)

lemma users_meeting_condition_overflow:
  "cutoff s c = Inl e \<Longrightarrow> users_meeting_condition ops s c = Inl e"
  by (simp add: users_meeting_condition_def)

lemma matching_users_count:
  assumes "operation c = ''count'' \<or>
      (operation c \<noteq> ''distinct_count'' \<and>
       \<not> (operation c = ''sum'' \<and> prop_of c = ''price'') \<and>
       \<not> (operation c = ''avg'' \<and> prop_of c = ''price''))"
  shows "matching_users ops s c t =
     Inr {u \<in> user_id ` set (filtered s c t).
            satisfies c (of_nat (length (user_rows u (filtered s c t))))}"
proof -
  have "matching_users ops s c t =
      Inr (compare_users c (group_size (groupby_user_id (filtered s c t))))"
    using assms
    by (auto simp: matching_users_def Let_def groupby_Nil group_size_def compare_users_Nil)
  then show ?thesis
    by (simp add: group_size_rows compare_users_rows)
qed

lemma matching_users_filtered:
  assumes "matching_users ops s c t = Inr S"
  shows "S \<subseteq> user_id ` set (filtered s c t)"
  using assms
  by (auto simp: matching_users_def Let_def group_size_rows group_sum_rows
      group_mean_rows group_nunique_rows compare_users_rows split: if_splits option.splits)

lemma users_meeting_condition_universe:
  assumes "users_meeting_condition ops s c = Inr S"
  shows "S \<subseteq> universe s"
proof -
  from assms obtain t where "matching_users ops s c t = Inr S"
    by (auto simp: users_meeting_condition_Inr)
  then have "S \<subseteq> user_id ` set (filtered s c t)"
    by (rule matching_users_filtered)
  then show ?thesis
    by (auto simp: universe_def filtered_def)
qed

lemma matching_users_evaluates:
  "(\<exists>S. matching_users ops s c t = Inr S) \<longleftrightarrow>
     \<not> (operation c = ''distinct_count'' \<and> filtered s c t \<noteq> [] \<and> target_prop c \<notin> event_columns)"
proof (cases "operation c = ''distinct_count'' \<and> filtered s c t \<noteq> []")
  case True
  show ?thesis
  proof (cases "column (target_prop c)")
    case None
    with True show ?thesis
      using column_defined [of "target_prop c"]
      by (simp add: matching_users_def Let_def)
  next
    case (Some col)
    with True show ?thesis
      using column_defined [of "target_prop c"]
      by (simp add: matching_users_def Let_def)
  qed
next
  case False
  then show ?thesis
    by (auto simp: matching_users_def Let_def)
qed

lemma users_meeting_condition_evaluates:
  "(\<exists>S. users_meeting_condition ops s c = Inr S) \<longleftrightarrow> evaluates s c"
proof (cases "cutoff s c")
  case (Inl e)
  then show ?thesis
    by (simp add: users_meeting_condition_def evaluates_def)
next
  case (Inr t)
  then show ?thesis
    using matching_users_evaluates [of ops s c t]
    by (simp add: users_meeting_condition_def evaluates_def)
qed

lemma cutoff_operation: "cutoff s (c\<lparr>operation := op\<rparr>) = cutoff s c"
  by (simp add: cutoff_def)

lemma cutoff_val: "cutoff s (c\<lparr>val := v\<rparr>) = cutoff s c"
  by (simp add: cutoff_def)

lemma cutoff_logic: "cutoff s (c\<lparr>logic := l\<rparr>) = cutoff s c"
  by (simp add: cutoff_def)

lemma filtered_operation: "filtered s (c\<lparr>operation := op\<rparr>) t = filtered s c t"
  by (simp add: filtered_def)

lemma satisfies_operation: "satisfies (c\<lparr>operation := op\<rparr>) = satisfies c"
  by (rule ext) (simp add: satisfies_def)

lemma matching_users_val_mono:
  assumes "comparator c = ''>=''" and "v1 \<le> v2"
  shows "(\<forall>S1 S2. matching_users ops s (c\<lparr>val := v1\<rparr>) t = Inr S1 \<and>
                  matching_users ops s (c\<lparr>val := v2\<rparr>) t = Inr S2 \<longrightarrow> S2 \<subseteq> S1)
       \<and> (\<forall>e. matching_users ops s (c\<lparr>val := v1\<rparr>) t = Inl e \<longleftrightarrow>
                matching_users ops s (c\<lparr>val := v2\<rparr>) t = Inl e)"
proof -
  have f: "filtered s (c\<lparr>val := v\<rparr>) t = filtered s c t" for v
    by (simp add: filtered_def)
  have p: "target_prop (c\<lparr>val := v\<rparr>) = target_prop c" for v
    by (simp add: target_prop_def prop_of_def)
  show ?thesis
    using compare_users_ge_mono [OF assms]
    by (auto simp: matching_users_def Let_def f p prop_of_def split: option.splits if_splits)
qed

lemma matching_users_logic:
  "matching_users ops s (c\<lparr>logic := l\<rparr>) t = matching_users ops s c t"
proof -
  have "filtered s (c\<lparr>logic := l\<rparr>) t = filtered s c t"
    by (simp add: filtered_def)
  moreover have "compare_users (c\<lparr>logic := l\<rparr>) = compare_users c"
    by (rule ext) (simp add: compare_users_def)
  moreover have "prop_of (c\<lparr>logic := l\<rparr>) = prop_of c"
    by (simp add: prop_of_def)
  moreover have "target_prop (c\<lparr>logic := l\<rparr>) = target_prop c"
    by (simp add: target_prop_def prop_of_def)
  ultimately show ?thesis
    by (simp add: matching_users_def Let_def split: option.splits)
qed

lemma users_meeting_condition_logic:
  "users_meeting_condition ops s (c\<lparr>logic := l\<rparr>) = users_meeting_condition ops s c"
  by (simp add: users_meeting_condition_def cutoff_logic matching_users_logic split: sum.splits)

lemma cond_users_logic: "cond_users ops s (c\<lparr>logic := l\<rparr>) = cond_users ops s c"
  by (simp add: cond_users_def users_meeting_condition_logic split: sum.splits)

section \<open>Facts about the fold over the conditions\<close>

lemma users_meeting_condition_frame:
  fixes s s' :: user_cohort_system
  assumes "user_events s' = user_events s" and "now s' = now s"
  shows "users_meeting_condition ops s' c = users_meeting_condition ops s c"
proof -
  have "cutoff s' c = cutoff s c"
    using assms(2) by (simp add: cutoff_def split: sum.splits)
  moreover have "filtered s' c t = filtered s c t" for t
    using assms(1) by (simp add: filtered_def)
  ultimately show ?thesis
    by (simp add: users_meeting_condition_def matching_users_def split: sum.splits)
qed

lemma cond_users_frame:
  fixes s s' :: user_cohort_system
  assumes "user_events s' = user_events s" and "now s' = now s"
  shows "cond_users ops s' c = cond_users ops s c"
proof -
  have "users_meeting_condition ops s' c = users_meeting_condition ops s c"
    using assms by (rule users_meeting_condition_frame)
  moreover have "universe s' = universe s"
    using assms(1) by (simp add: universe_def)
  ultimately show ?thesis
    by (simp add: cond_users_def split: sum.splits)
qed

lemma cohort_loop_frame:
  fixes s s' :: user_cohort_system
  assumes "user_events s' = user_events s" and "now s' = now s"
  shows "cohort_loop ops s' acc cs = cohort_loop ops s acc cs"
proof (induction cs arbitrary: acc)
  case Nil
  show ?case by simp
next
  case (Cons c cs)
  have "cond_users ops s' c = cond_users ops s c"
    using assms by (rule cond_users_frame)
  with Cons.IH show ?case
    by (simp split: sum.splits)
qed

lemma cond_users_evaluates: "(\<exists>S. cond_users ops s c = Inr S) \<longleftrightarrow> evaluates s c"
  using users_meeting_condition_evaluates [of ops s c]
  by (auto simp: cond_users_def split: sum.splits)

lemma cohort_loop_evaluates:
  "(\<exists>r. cohort_loop ops s acc cs = Inr r) \<longleftrightarrow> (\<forall>c \<in> set cs. evaluates s c)"
proof (induction cs arbitrary: acc)
  case Nil
  show ?case by simp
next
  case (Cons c cs)
  show ?case
  proof (cases "cond_users ops s c")
    case (Inl e)
    then have "\<not> evaluates s c"
      using cond_users_evaluates [of ops s c] by simp
    with Inl show ?thesis
      by simp
  next
    case (Inr cu)
    then have "evaluates s c"
      using cond_users_evaluates [of ops s c] by auto
    with Inr Cons.IH show ?thesis
      by simp
  qed
qed

lemma cohort_loop_Some:
  "cohort_loop ops s acc (c # cs) \<noteq> Inr None"
proof -
  have "cohort_loop ops s (Some a) ds \<noteq> Inr None" for a ds
    by (induction ds arbitrary: a) (auto split: sum.splits)
  then show ?thesis
    by (auto split: sum.splits)
qed

lemma cond_users_universe:
  assumes "cond_users ops s c = Inr S"
  shows "S \<subseteq> universe s"
  using assms users_meeting_condition_universe [of ops s c]
  by (auto simp: cond_users_def split: sum.splits if_splits)

lemma combine_cases: "combine a c cu = a \<inter> cu \<or> combine a c cu = a \<union> cu"
  by (simp add: combine_def Let_def)

lemma combine_subset: "combine a c cu \<subseteq> a \<union> cu"
  using combine_cases [of a c cu] by auto

lemma cohort_loop_universe:
  assumes "cohort_loop ops s acc cs = Inr (Some r)" and "\<forall>a. acc = Some a \<longrightarrow> a \<subseteq> universe s"
  shows "r \<subseteq> universe s"
  using assms
proof (induction cs arbitrary: acc)
  case Nil
  then show ?case by simp
next
  case (Cons c cs)
  from Cons.prems(1) obtain cu where cu: "cond_users ops s c = Inr cu"
    by (auto split: sum.splits)
  then have sub: "cu \<subseteq> universe s"
    by (rule cond_users_universe)
  let ?acc = "Some (case acc of None \<Rightarrow> cu | Some a \<Rightarrow> combine a c cu)"
  have "cohort_loop ops s ?acc cs = Inr (Some r)"
    using Cons.prems(1) cu by simp
  moreover have "\<forall>a. ?acc = Some a \<longrightarrow> a \<subseteq> universe s"
  proof (cases acc)
    case None
    with sub show ?thesis by simp
  next
    case (Some a0)
    with Cons.prems(2) have "a0 \<subseteq> universe s" by simp
    with sub combine_subset [of a0 c cu] have "combine a0 c cu \<subseteq> universe s" by blast
    with Some show ?thesis by simp
  qed
  ultimately show ?case
    using Cons.IH [of ?acc] by blast
qed

lemma upper_char_O: "upper_char a = CHR ''O'' \<longleftrightarrow> a = CHR ''O'' \<or> a = CHR ''o''"
  by (auto simp: upper_char_def split: if_splits)

lemma upper_char_R: "upper_char a = CHR ''R'' \<longleftrightarrow> a = CHR ''R'' \<or> a = CHR ''r''"
  by (auto simp: upper_char_def split: if_splits)

lemma upper_eq_OR: "upper l = ''OR'' \<longleftrightarrow> l \<in> {''OR'', ''Or'', ''oR'', ''or''}"
proof -
  have "upper l = ''OR'' \<longleftrightarrow>
      (\<exists>a b. l = [a, b] \<and> upper_char a = CHR ''O'' \<and> upper_char b = CHR ''R'')"
    by (auto simp: upper_def map_eq_Cons_conv)
  also have "\<dots> \<longleftrightarrow> l \<in> {''OR'', ''Or'', ''oR'', ''or''}"
    by (auto simp: upper_char_O upper_char_R)
  finally show ?thesis .
qed

lemma upper_AND: "upper ''AND'' = ''AND''"
  by (simp add: upper_def upper_char_def)

lemma ex_conds: "conditions ex_cohort = [ex_cart_twice, ex_view_or]"
  by (simp add: ex_cohort_def)

lemma combine_union: "combine a c cu = (if joins_by_union c then a \<union> cu else a \<inter> cu)"
proof (cases "logic c")
  case None
  then show ?thesis
    by (simp add: combine_def joins_by_union_def upper_AND)
next
  case (Some l)
  show ?thesis
  proof (cases "l = []")
    case True
    with Some show ?thesis
      by (simp add: combine_def joins_by_union_def upper_AND)
  next
    case False
    have "upper l = ''OR'' \<longleftrightarrow> joins_by_union c"
      using Some by (auto simp: upper_eq_OR joins_by_union_def)
    moreover have "upper l = ''OR'' \<Longrightarrow> upper l \<noteq> ''AND''"
      by simp
    ultimately show ?thesis
      using Some False by (auto simp: combine_def Let_def)
  qed
qed

lemma cohort_loop_foldl:
  assumes "\<forall>d \<in> set cs. cond_users ops s d = Inr (S d)"
  shows "cohort_loop ops s (Some a) cs = Inr (Some (foldl (\<lambda>acc d. combine acc d (S d)) a cs))"
  using assms by (induction cs arbitrary: a) simp_all

section \<open>Fallbacks of the raw-match evaluation\<close>

text \<open>
  Claim C3, as stated, fails in its last part: the cutoff is computed before anything
  else (line 369), and for a window that reaches back beyond the year 1 the subtraction
  raises \<^verbatim>\<open>OverflowError\<close>, whatever the operation is.
\<close>

theorem unknown_operation_overflow_counterexample:
  "operation ex_median_far \<notin> {''count'', ''sum'', ''avg'', ''distinct_count''}
   \<and> timeframe ex_median_far = Some 1000000
   \<and> users_meeting_condition exact_ops ex_system ex_median_far = Inl OverflowError"
proof -
  have "operation ex_median_far \<notin> {''count'', ''sum'', ''avg'', ''distinct_count''}"
    by (simp add: ex_median_far_def ex_median_def mk_condition_def)
  moreover have "timeframe ex_median_far = Some 1000000"
    by (simp add: ex_median_far_def)
  moreover have "cutoff ex_system ex_median_far = Inl OverflowError"
    by (simp add: cutoff_def ex_median_far_def timedelta_days_def datetime_minus_def
        ex_system_def)
  then have "users_meeting_condition exact_ops ex_system ex_median_far = Inl OverflowError"
    by (rule users_meeting_condition_overflow)
  ultimately show ?thesis
    by blast
qed

text \<open>
  Claim C3, amended. A condition whose operation is none of \<^verbatim>\<open>count\<close>, \<^verbatim>\<open>sum\<close>,
  \<^verbatim>\<open>avg\<close>, \<^verbatim>\<open>distinct_count\<close> has the outcome of the same condition with operation
  \<^verbatim>\<open>count\<close>. When the cutoff instant can be computed, the evaluation raises nothing
  and returns the users whose number of matching events satisfies the comparison.
\<close>

theorem unknown_operation_as_count:
  assumes "operation c \<notin> {''count'', ''sum'', ''avg'', ''distinct_count''}"
  shows "users_meeting_condition ops s c =
      users_meeting_condition ops s (c\<lparr>operation := ''count''\<rparr>)
    \<and> (\<forall>t. cutoff s c = Inr t \<longrightarrow>
          users_meeting_condition ops s c =
            Inr {u \<in> user_id ` set (filtered s c t).
                   satisfies c (of_nat (length (user_rows u (filtered s c t))))})"
proof -
  have a: "matching_users ops s c t =
      Inr {u \<in> user_id ` set (filtered s c t).
             satisfies c (of_nat (length (user_rows u (filtered s c t))))}" for t
    using assms by (intro matching_users_count) auto
  have b: "matching_users ops s (c\<lparr>operation := ''count''\<rparr>) t =
      Inr {u \<in> user_id ` set (filtered s c t).
             satisfies c (of_nat (length (user_rows u (filtered s c t))))}" for t
    using matching_users_count [of "c\<lparr>operation := ''count''\<rparr>" ops s t]
    by (simp add: filtered_operation satisfies_operation)
  show ?thesis
    using a b
    by (simp add: users_meeting_condition_def cutoff_operation split: sum.splits)
qed

theorem unknown_operation_as_count_witness:
  "operation ex_median \<notin> {''count'', ''sum'', ''avg'', ''distinct_count''}
   \<and> cutoff ex_system ex_median = Inr (738993 * 86400000000)
   \<and> length (user_rows ''A'' (filtered ex_system ex_median (738993 * 86400000000))) = 2
   \<and> length (user_rows ''B'' (filtered ex_system ex_median (738993 * 86400000000))) = 1
   \<and> users_meeting_condition exact_ops ex_system (ex_median\<lparr>operation := ''count''\<rparr>) = Inr {''A''}
   \<and> users_meeting_condition exact_ops ex_system ex_median = Inr {''A''}"
proof -
  have h: "operation ex_median \<notin> {''count'', ''sum'', ''avg'', ''distinct_count''}"
    by (simp add: ex_median_def mk_condition_def)
  have t: "cutoff ex_system ex_median = Inr (738993 * 86400000000)"
    by code_simp
  have a: "length (user_rows ''A'' (filtered ex_system ex_median (738993 * 86400000000))) = 2"
    by code_simp
  have b: "length (user_rows ''B'' (filtered ex_system ex_median (738993 * 86400000000))) = 1"
    by code_simp
  have v: "users_meeting_condition exact_ops ex_system (ex_median\<lparr>operation := ''count''\<rparr>) = Inr {''A''}"
    by code_simp
  from unknown_operation_as_count [OF h, of exact_ops ex_system] v
  have "users_meeting_condition exact_ops ex_system ex_median = Inr {''A''}"
    by simp
  with h t a b v show ?thesis
    by blast
qed

text \<open>
  Claim C10. A condition with operation \<^verbatim>\<open>sum\<close> or \<^verbatim>\<open>avg\<close> whose property is not exactly
  \<^verbatim>\<open>price\<close> (or is absent) is evaluated as a count: it has the outcome of the same
  condition with operation \<^verbatim>\<open>count\<close>, namely, when the cutoff instant can be computed,
  the users whose number of matching events satisfies the comparison.
\<close>

theorem sum_avg_other_property_as_count:
  assumes "operation c = ''sum'' \<or> operation c = ''avg''" and "property c \<noteq> Some ''price''"
  shows "users_meeting_condition ops s c =
      users_meeting_condition ops s (c\<lparr>operation := ''count''\<rparr>)
    \<and> (\<forall>t. cutoff s c = Inr t \<longrightarrow>
          users_meeting_condition ops s c =
            Inr {u \<in> user_id ` set (filtered s c t).
                   satisfies c (of_nat (length (user_rows u (filtered s c t))))})"
proof -
  from assms(2) have p: "prop_of c \<noteq> ''price''"
    by (auto simp: prop_of_def split: option.splits)
  have a: "matching_users ops s c t =
      Inr {u \<in> user_id ` set (filtered s c t).
             satisfies c (of_nat (length (user_rows u (filtered s c t))))}" for t
    using assms(1) p by (intro matching_users_count) auto
  have b: "matching_users ops s (c\<lparr>operation := ''count''\<rparr>) t =
      Inr {u \<in> user_id ` set (filtered s c t).
             satisfies c (of_nat (length (user_rows u (filtered s c t))))}" for t
    using matching_users_count [of "c\<lparr>operation := ''count''\<rparr>" ops s t]
    by (simp add: filtered_operation satisfies_operation)
  show ?thesis
    using a b
    by (simp add: users_meeting_condition_def cutoff_operation split: sum.splits)
qed

theorem sum_avg_other_property_as_count_witness:
  "(operation ex_sum_events = ''sum'' \<or> operation ex_sum_events = ''avg'')
   \<and> property ex_sum_events \<noteq> Some ''price''
   \<and> users_meeting_condition exact_ops ex_system ex_sum_events
       = users_meeting_condition exact_ops ex_system (ex_sum_events\<lparr>operation := ''count''\<rparr>)
   \<and> users_meeting_condition exact_ops ex_system ex_sum_events = Inr {''A''}"
proof -
  have h1: "operation ex_sum_events = ''sum'' \<or> operation ex_sum_events = ''avg''"
    by (simp add: ex_sum_events_def mk_condition_def)
  have h2: "property ex_sum_events \<noteq> Some ''price''"
    by (simp add: ex_sum_events_def mk_condition_def)
  have v: "users_meeting_condition exact_ops ex_system ex_sum_events = Inr {''A''}"
    by code_simp
  from sum_avg_other_property_as_count [OF h1 h2, of exact_ops ex_system] h1 h2 v show ?thesis
    by blast
qed

text \<open>
  Claim C4, as stated, fails in two ways. With operation \<^verbatim>\<open>distinct_count\<close> and a
  property that is not a column of the event table, pandas raises \<^verbatim>\<open>KeyError\<close> at line
  430, before the comparator is looked at, when some event matches the action and the
  window. And for a window that reaches back beyond the year 1, line 369 raises
  \<^verbatim>\<open>OverflowError\<close>.
\<close>

theorem unknown_comparator_raises_counterexample:
  "comparator ex_distinct_events \<notin> {''>='', ''>'', ''<='', ''<'', ''==''}
   \<and> users_meeting_condition exact_ops ex_system ex_distinct_events = Inl (KeyError ''events'')
   \<and> comparator ex_unknown_cmp_far \<notin> {''>='', ''>'', ''<='', ''<'', ''==''}
   \<and> timeframe ex_unknown_cmp_far = Some 1000000
   \<and> users_meeting_condition exact_ops ex_system ex_unknown_cmp_far = Inl OverflowError"
proof -
  have "comparator ex_distinct_events \<notin> {''>='', ''>'', ''<='', ''<'', ''==''}"
    by (simp add: ex_distinct_events_def mk_condition_def)
  moreover have "users_meeting_condition exact_ops ex_system ex_distinct_events
      = Inl (KeyError ''events'')"
    by code_simp
  moreover have "comparator ex_unknown_cmp_far \<notin> {''>='', ''>'', ''<='', ''<'', ''==''}"
    by (simp add: ex_unknown_cmp_far_def ex_unknown_cmp_def mk_condition_def)
  moreover have "timeframe ex_unknown_cmp_far = Some 1000000"
    by (simp add: ex_unknown_cmp_far_def)
  moreover have "users_meeting_condition exact_ops ex_system ex_unknown_cmp_far = Inl OverflowError"
    by code_simp
  ultimately show ?thesis
    by blast
qed

text \<open>
  Claim C4, amended. A condition whose comparator is none of \<^verbatim>\<open>>=\<close>, \<^verbatim>\<open>>\<close>, \<^verbatim>\<open><=\<close>,
  \<^verbatim>\<open><\<close>, \<^verbatim>\<open>==\<close> has the empty raw match set, and its evaluation raises nothing, in every
  branch on the operation, exactly when the condition evaluates without an exception:
  the cutoff instant can be computed and, if the operation is \<^verbatim>\<open>distinct_count\<close> and some
  event matches the action and the window, the property it counts (\<^verbatim>\<open>sku_id\<close> when the
  property is empty or absent) is a column of the event table.
\<close>

theorem unknown_comparator_empty:
  assumes "comparator c \<notin> {''>='', ''>'', ''<='', ''<'', ''==''}"
  shows "users_meeting_condition ops s c = Inr {} \<longleftrightarrow> evaluates s c"
proof -
  have e: "compare_users c grp = {}" for grp
    using assms by (simp add: compare_users_def)
  have "users_meeting_condition ops s c = Inr S \<Longrightarrow> S = {}" for S
    by (auto simp: users_meeting_condition_def matching_users_def Let_def e
        split: sum.splits if_splits option.splits)
  then have "users_meeting_condition ops s c = Inr {} \<longleftrightarrow>
      (\<exists>S. users_meeting_condition ops s c = Inr S)"
    by blast
  then show ?thesis
    by (simp only: users_meeting_condition_evaluates)
qed

theorem unknown_comparator_empty_witness:
  "comparator ex_unknown_cmp \<notin> {''>='', ''>'', ''<='', ''<'', ''==''}
   \<and> operation ex_unknown_cmp = ''distinct_count''
   \<and> evaluates ex_system ex_unknown_cmp
   \<and> users_meeting_condition exact_ops ex_system ex_unknown_cmp = Inr {}
   \<and> comparator ex_distinct_events \<notin> {''>='', ''>'', ''<='', ''<'', ''==''}
   \<and> \<not> evaluates ex_system ex_distinct_events
   \<and> users_meeting_condition exact_ops ex_system ex_distinct_events \<noteq> Inr {}"
proof -
  have h1: "comparator ex_unknown_cmp \<notin> {''>='', ''>'', ''<='', ''<'', ''==''}"
    by (simp add: ex_unknown_cmp_def mk_condition_def)
  have h2: "operation ex_unknown_cmp = ''distinct_count''"
    by (simp add: ex_unknown_cmp_def mk_condition_def)
  have h3: "evaluates ex_system ex_unknown_cmp"
    by code_simp
  have g1: "comparator ex_distinct_events \<notin> {''>='', ''>'', ''<='', ''<'', ''==''}"
    by (simp add: ex_distinct_events_def mk_condition_def)
  have g3: "\<not> evaluates ex_system ex_distinct_events"
    by code_simp
  from unknown_comparator_empty [OF h1, of exact_ops ex_system] h3
  have a: "users_meeting_condition exact_ops ex_system ex_unknown_cmp = Inr {}"
    by simp
  from unknown_comparator_empty [OF g1, of exact_ops ex_system] g3
  have b: "users_meeting_condition exact_ops ex_system ex_distinct_events \<noteq> Inr {}"
    by simp
  from h1 h2 h3 a g1 g3 b show ?thesis
    by blast
qed

section \<open>Empty inputs\<close>

text \<open>
  Claim C8, as stated, fails in its second part: no event of the table has the action
  \<^verbatim>\<open>payment_successful\<close>, and yet the evaluation of a condition on that action with a
  window of a million days raises \<^verbatim>\<open>OverflowError\<close> at line 369 instead of returning the
  empty set.
\<close>

theorem no_matching_event_overflow_counterexample:
  "action ex_payment_far \<notin> set (map event (user_events ex_system))
   \<and> timeframe ex_payment_far = Some 1000000
   \<and> users_meeting_condition exact_ops ex_system ex_payment_far = Inl OverflowError"
proof -
  have "action ex_payment_far \<notin> set (map event (user_events ex_system))"
    by (simp add: ex_payment_far_def ex_payment_def mk_condition_def ex_system_def
        ex_events_def mk_event_def)
  moreover have "timeframe ex_payment_far = Some 1000000"
    by (simp add: ex_payment_far_def)
  moreover have "users_meeting_condition exact_ops ex_system ex_payment_far = Inl OverflowError"
    by code_simp
  ultimately show ?thesis
    by blast
qed

text \<open>
  Claim C8, amended. A cohort without conditions evaluates to the empty sequence; a
  condition whose cutoff instant can be computed, and none of whose events has its
  action at or after the cutoff, has the empty raw match set. Both are results, not
  errors.
\<close>

theorem empty_inputs:
  "(conditions co = [] \<longrightarrow> execute_cohort ops s co = Inr []) \<and>
   (\<forall>t. cutoff s c = Inr t \<and>
        (\<forall>e \<in> set (user_events s). event e \<noteq> action c \<or> timestamp e < t) \<longrightarrow>
      users_meeting_condition ops s c = Inr {})"
proof -
  have "filtered s c t = []"
    if "\<forall>e \<in> set (user_events s). event e \<noteq> action c \<or> timestamp e < t" for t
    using that by (auto simp: filtered_def filter_empty_conv)
  then show ?thesis
    by (auto simp: execute_cohort_def users_meeting_condition_def matching_users_def)
qed

theorem empty_inputs_witness:
  "conditions (ex_cohort\<lparr>conditions := []\<rparr>) = []
   \<and> execute_cohort exact_ops ex_system (ex_cohort\<lparr>conditions := []\<rparr>) = Inr []
   \<and> user_events ex_system \<noteq> []
   \<and> cutoff ex_system ex_payment = Inr (738993 * 86400000000)
   \<and> users_meeting_condition exact_ops ex_system ex_payment = Inr {}"
proof -
  have h1: "conditions (ex_cohort\<lparr>conditions := []\<rparr>) = []"
    by simp
  have t: "cutoff ex_system ex_payment = Inr (738993 * 86400000000)"
    by code_simp
  have h2: "\<forall>e \<in> set (user_events ex_system).
         event e \<noteq> action ex_payment \<or> timestamp e < 738993 * 86400000000"
    by (simp add: ex_system_def ex_events_def mk_event_def ex_payment_def mk_condition_def)
  have h3: "user_events ex_system \<noteq> []"
    by (simp add: ex_system_def ex_events_def)
  from empty_inputs [of "ex_cohort\<lparr>conditions := []\<rparr>" exact_ops ex_system ex_payment] h1 h2 h3 t
  show ?thesis
    by blast
qed

section \<open>Monotonicity in the threshold\<close>

text \<open>
  Claim C6. Two conditions that differ in their value only, with comparator \<^verbatim>\<open>>=\<close>:
  the raw matches for the larger value are among the raw matches for the smaller one,
  whatever the action, the operation and the property are. The two evaluations raise
  the same error when one of them raises.
\<close>

theorem ge_monotone:
  assumes "comparator c = ''>=''" and "v1 \<le> v2"
  shows "(\<forall>S1 S2. users_meeting_condition ops s (c\<lparr>val := v1\<rparr>) = Inr S1 \<and>
                  users_meeting_condition ops s (c\<lparr>val := v2\<rparr>) = Inr S2 \<longrightarrow> S2 \<subseteq> S1)
       \<and> (\<forall>e. users_meeting_condition ops s (c\<lparr>val := v1\<rparr>) = Inl e \<longleftrightarrow>
                users_meeting_condition ops s (c\<lparr>val := v2\<rparr>) = Inl e)"
proof (cases "cutoff s c")
  case (Inl e)
  then show ?thesis
    by (simp add: users_meeting_condition_def cutoff_val)
next
  case (Inr t)
  then show ?thesis
    using matching_users_val_mono [OF assms, of ops s t]
    by (simp add: users_meeting_condition_def cutoff_val)
qed

theorem ge_monotone_witness:
  "comparator ex_sum_price = ''>='' \<and> (400::rat) \<le> 600
   \<and> users_meeting_condition exact_ops ex_system (ex_sum_price\<lparr>val := 400\<rparr>) = Inr {''A'', ''B''}
   \<and> users_meeting_condition exact_ops ex_system (ex_sum_price\<lparr>val := 600\<rparr>) = Inr {''A''}
   \<and> {''A''} \<subseteq> {''A'', ''B''}"
proof -
  have h1: "comparator ex_sum_price = ''>=''"
    by (simp add: ex_sum_price_def mk_condition_def)
  have h2: "(400::rat) \<le> 600"
    by simp
  have v1: "users_meeting_condition exact_ops ex_system (ex_sum_price\<lparr>val := 400\<rparr>) = Inr {''A'', ''B''}"
    by code_simp
  have v2: "users_meeting_condition exact_ops ex_system (ex_sum_price\<lparr>val := 600\<rparr>) = Inr {''A''}"
    by code_simp
  from ge_monotone [OF h1 h2, of exact_ops ex_system] v1 v2 have "{''A''} \<subseteq> {''A'', ''B''}"
    by blast
  with h1 h2 v1 v2 show ?thesis
    by blast
qed

section \<open>Exclusion\<close>

text \<open>
  Claim C5. For a condition with \<^verbatim>\<open>include\<close> false, the set that enters the fold is the
  universe (the users of the event table) without the raw matches; the two sets are
  disjoint and their union is the universe.
\<close>

theorem exclude_complement:
  assumes "incl c = Some False" and "users_meeting_condition ops s c = Inr raw"
  shows "cond_users ops s c = Inr (universe s - raw)
    \<and> raw \<inter> (universe s - raw) = {}
    \<and> raw \<union> (universe s - raw) = universe s"
  using assms users_meeting_condition_universe [OF assms(2)]
  by (auto simp: cond_users_def)

theorem exclude_complement_witness:
  "incl ex_exclude = Some False
   \<and> users_meeting_condition exact_ops ex_system ex_exclude = Inr {''A''}
   \<and> universe ex_system = {''A'', ''B'', ''C''}
   \<and> cond_users exact_ops ex_system ex_exclude = Inr (universe ex_system - {''A''})
   \<and> {''A''} \<inter> (universe ex_system - {''A''}) = {}
   \<and> {''A''} \<union> (universe ex_system - {''A''}) = universe ex_system"
proof -
  have h1: "incl ex_exclude = Some False"
    by (simp add: ex_exclude_def mk_condition_def)
  have h2: "users_meeting_condition exact_ops ex_system ex_exclude = Inr {''A''}"
    by code_simp
  have u: "universe ex_system = {''A'', ''B'', ''C''}"
    by (auto simp: universe_def ex_system_def ex_events_def mk_event_def)
  from exclude_complement [OF h1 h2] h1 h2 u show ?thesis
    by blast
qed

section \<open>Lookup of a cohort\<close>

text \<open>
  Claim C9. \<^verbatim>\<open>get_cohort_users\<close> returns the empty sequence, and raises nothing, when
  no cohort of the registry has the identifier or when the (first) cohort with the
  identifier is not active; otherwise it returns what \<^verbatim>\<open>execute_cohort\<close> returns for
  that cohort.
\<close>

theorem get_cohort_users_lookup:
  "((\<forall>co \<in> set (cohorts s). cohort_id co \<noteq> cid) \<longrightarrow> get_cohort_users ops s cid = Inr []) \<and>
   (\<forall>pre co post.
      cohorts s = pre @ co # post \<and> (\<forall>p \<in> set pre. cohort_id p \<noteq> cid) \<and> cohort_id co = cid \<longrightarrow>
      get_cohort_users ops s cid =
        (if active co = Some True then execute_cohort ops s co else Inr []))"
proof (intro conjI allI impI)
  assume "\<forall>co \<in> set (cohorts s). cohort_id co \<noteq> cid"
  then have "find (\<lambda>c. cohort_id c = cid) (cohorts s) = None"
    by (simp add: find_None_iff)
  then show "get_cohort_users ops s cid = Inr []"
    by (simp add: get_cohort_users_def)
next
  fix pre co post
  assume a: "cohorts s = pre @ co # post \<and> (\<forall>p \<in> set pre. cohort_id p \<noteq> cid) \<and> cohort_id co = cid"
  then have "find (\<lambda>c. cohort_id c = cid) (cohorts s) = Some co"
    by (simp add: find_first)
  then show "get_cohort_users ops s cid =
      (if active co = Some True then execute_cohort ops s co else Inr [])"
    by (auto simp: get_cohort_users_def split: option.splits)
qed

theorem get_cohort_users_lookup_witness:
  "get_cohort_users exact_ops ex_system 3 = Inr []
   \<and> get_cohort_users exact_ops ex_system 2 = Inr []
   \<and> get_cohort_users exact_ops ex_system 1 = execute_cohort exact_ops ex_system ex_cohort
   \<and> execute_cohort exact_ops ex_system ex_cohort = Inr [''A'', ''B'']"
proof -
  have c: "cohorts ex_system = [ex_cohort, ex_inactive]"
    by (simp add: ex_system_def)
  have i: "cohort_id ex_cohort = 1" "cohort_id ex_inactive = 2"
    "active ex_cohort = Some True" "active ex_inactive = Some False"
    by (simp_all add: ex_cohort_def ex_inactive_def)
  note t = get_cohort_users_lookup [of ex_system _ exact_ops]
  have "\<forall>co \<in> set (cohorts ex_system). cohort_id co \<noteq> 3"
    by (simp add: c i)
  with t [of 3] have m: "get_cohort_users exact_ops ex_system 3 = Inr []"
    by blast
  have "cohorts ex_system = [ex_cohort] @ ex_inactive # [] \<and>
      (\<forall>p \<in> set [ex_cohort]. cohort_id p \<noteq> 2) \<and> cohort_id ex_inactive = 2"
    by (simp add: c i)
  with t [of 2] have "get_cohort_users exact_ops ex_system 2 =
      (if active ex_inactive = Some True then execute_cohort exact_ops ex_system ex_inactive
       else Inr [])"
    by blast
  then have n: "get_cohort_users exact_ops ex_system 2 = Inr []"
    by (simp add: i)
  have "cohorts ex_system = [] @ ex_cohort # [ex_inactive] \<and>
      (\<forall>p \<in> set []. cohort_id p \<noteq> 1) \<and> cohort_id ex_cohort = 1"
    by (simp add: c i)
  with t [of 1] have "get_cohort_users exact_ops ex_system 1 =
      (if active ex_cohort = Some True then execute_cohort exact_ops ex_system ex_cohort
       else Inr [])"
    by blast
  then have a: "get_cohort_users exact_ops ex_system 1 = execute_cohort exact_ops ex_system ex_cohort"
    by (simp add: i)
  have "execute_cohort exact_ops ex_system ex_cohort = Inr [''A'', ''B'']"
    by code_simp
  with m n a show ?thesis
    by blast
qed

section \<open>The result of a cohort evaluation\<close>

text \<open>
  Claim C7, as stated, fails: not every cohort evaluates to a sequence. The cohort
  whose one condition counts the distinct values of the property \<^verbatim>\<open>events\<close>, which is
  not a column of the event table, makes \<^verbatim>\<open>execute_cohort\<close> raise \<^verbatim>\<open>KeyError\<close>.
\<close>

theorem execute_cohort_raises_counterexample:
  "conditions ex_distinct_cohort = [ex_distinct_events]
   \<and> operation ex_distinct_events = ''distinct_count''
   \<and> property ex_distinct_events = Some ''events''
   \<and> execute_cohort exact_ops ex_system ex_distinct_cohort = Inl (KeyError ''events'')"
proof -
  have "conditions ex_distinct_cohort = [ex_distinct_events]"
    by (simp add: ex_distinct_cohort_def)
  moreover have "operation ex_distinct_events = ''distinct_count''"
    and "property ex_distinct_events = Some ''events''"
    by (simp_all add: ex_distinct_events_def mk_condition_def)
  moreover have "execute_cohort exact_ops ex_system ex_distinct_cohort = Inl (KeyError ''events'')"
    by code_simp
  ultimately show ?thesis
    by blast
qed

text \<open>
  Claim C7, amended. Whenever \<^verbatim>\<open>execute_cohort\<close> returns a sequence, the sequence is in
  ascending order, has no duplicates and holds users of the event table only. It
  returns a sequence exactly when each condition of the cohort evaluates without an
  exception. The outcome is determined by the event table, \<^verbatim>\<open>now\<close> and the conditions:
  a second evaluation against the same snapshot has the same outcome, whatever happened
  to the registry of cohorts in between.
\<close>

theorem execute_cohort_sorted:
  "(\<forall>us. execute_cohort ops s co = Inr us \<longrightarrow>
        sorted us \<and> distinct us \<and> set us \<subseteq> universe s)
   \<and> ((\<exists>us. execute_cohort ops s co = Inr us) \<longleftrightarrow>
        (\<forall>c \<in> set (conditions co). evaluates s c))
   \<and> (\<forall>(s'::user_cohort_system) co'.
        user_events s' = user_events s \<and> now s' = now s \<and> conditions co' = conditions co \<longrightarrow>
        execute_cohort ops s' co' = execute_cohort ops s co)"
proof (intro conjI allI impI)
  fix us
  assume r: "execute_cohort ops s co = Inr us"
  show "sorted us"
    using r by (auto simp: execute_cohort_def split: if_splits sum.splits option.splits)
  show "distinct us"
    using r by (auto simp: execute_cohort_def split: if_splits sum.splits option.splits)
  show "set us \<subseteq> universe s"
  proof (cases "us = []")
    case True
    then show ?thesis by simp
  next
    case False
    with r obtain a where l: "cohort_loop ops s None (conditions co) = Inr (Some a)"
      and us: "us = sorted_list_of_set a"
      by (auto simp: execute_cohort_def split: if_splits sum.splits option.splits)
    from l have "a \<subseteq> universe s"
      using cohort_loop_universe [of ops s None "conditions co" a] by simp
    moreover have "finite (universe s)"
      by (simp add: universe_def)
    ultimately have "finite a"
      by (rule finite_subset)
    with us \<open>a \<subseteq> universe s\<close> show ?thesis
      by simp
  qed
next
  have "(\<exists>us. execute_cohort ops s co = Inr us) \<longleftrightarrow>
      (\<exists>r. cohort_loop ops s None (conditions co) = Inr r)"
    by (cases "conditions co")
      (auto simp: execute_cohort_def split: sum.splits option.splits)
  then show "(\<exists>us. execute_cohort ops s co = Inr us) \<longleftrightarrow>
      (\<forall>c \<in> set (conditions co). evaluates s c)"
    by (simp only: cohort_loop_evaluates)
next
  fix s' :: user_cohort_system and co' :: cohort
  assume a: "user_events s' = user_events s \<and> now s' = now s \<and> conditions co' = conditions co"
  then have "cohort_loop ops s' None (conditions co') = cohort_loop ops s None (conditions co)"
    using cohort_loop_frame [of s' s ops None "conditions co"] by simp
  with a show "execute_cohort ops s' co' = execute_cohort ops s co"
    by (simp add: execute_cohort_def)
qed

theorem execute_cohort_sorted_witness:
  "execute_cohort exact_ops ex_system ex_cohort = Inr [''A'', ''B'']
   \<and> sorted [''A'', ''B''] \<and> distinct [''A'', ''B'']
   \<and> set [''A'', ''B''] \<subseteq> universe ex_system
   \<and> evaluates ex_system ex_cart_twice \<and> evaluates ex_system ex_view_or
   \<and> execute_cohort exact_ops (ex_system\<lparr>cohorts := []\<rparr>) ex_inactive
       = execute_cohort exact_ops ex_system ex_cohort"
proof -
  note t = execute_cohort_sorted [of exact_ops ex_system ex_cohort]
  have v: "execute_cohort exact_ops ex_system ex_cohort = Inr [''A'', ''B'']"
    by code_simp
  with t have p: "sorted [''A'', ''B''] \<and> distinct [''A'', ''B'']
      \<and> set [''A'', ''B''] \<subseteq> universe ex_system"
    by blast
  from t v have "\<forall>c \<in> set (conditions ex_cohort). evaluates ex_system c"
    by blast
  then have e: "evaluates ex_system ex_cart_twice \<and> evaluates ex_system ex_view_or"
    by (simp add: ex_conds)
  have "user_events (ex_system\<lparr>cohorts := []\<rparr>) = user_events ex_system \<and>
      now (ex_system\<lparr>cohorts := []\<rparr>) = now ex_system \<and>
      conditions ex_inactive = conditions ex_cohort"
    by (simp add: ex_inactive_def)
  with t have "execute_cohort exact_ops (ex_system\<lparr>cohorts := []\<rparr>) ex_inactive
      = execute_cohort exact_ops ex_system ex_cohort"
    by blast
  with v p e show ?thesis
    by blast
qed

section \<open>The fold over the conditions\<close>

text \<open>
  Claim C2, as stated, fails: the token is upper-cased before it is compared (line 492),
  so a second condition with logic \<^verbatim>\<open>or\<close>, which is not the string \<^verbatim>\<open>OR\<close>, is joined
  by union. Here the two conditions match user A and user B; the evaluation returns
  both, where an intersection would return nobody.
\<close>

theorem or_in_lower_case_counterexample:
  "conditions ex_cohort = [ex_cart_twice, ex_view_or]
   \<and> logic ex_view_or = Some ''or'' \<and> ''or'' \<noteq> ''OR''
   \<and> cond_users exact_ops ex_system ex_cart_twice = Inr {''A''}
   \<and> cond_users exact_ops ex_system ex_view_or = Inr {''B''}
   \<and> execute_cohort exact_ops ex_system ex_cohort = Inr [''A'', ''B'']
   \<and> sorted_list_of_set ({''A''} \<inter> {''B''}) = ([] :: string list)"
proof -
  have "conditions ex_cohort = [ex_cart_twice, ex_view_or]"
    by (simp add: ex_conds)
  moreover have "logic ex_view_or = Some ''or'' \<and> ''or'' \<noteq> ''OR''"
    by (simp add: ex_view_or_def mk_condition_def)
  moreover have "cond_users exact_ops ex_system ex_cart_twice = Inr {''A''}"
    by code_simp
  moreover have "cond_users exact_ops ex_system ex_view_or = Inr {''B''}"
    by code_simp
  moreover have "execute_cohort exact_ops ex_system ex_cohort = Inr [''A'', ''B'']"
    by code_simp
  moreover have "sorted_list_of_set ({''A''} \<inter> {''B''}) = ([] :: string list)"
    by simp
  ultimately show ?thesis
    by blast
qed

text \<open>
  Claim C2, amended. In a cohort whose conditions all evaluate to sets, the result is
  the sorted sequence of the left fold that starts from the set of the first condition
  and joins the set of each later condition by the \<^verbatim>\<open>logic\<close> of that condition itself:
  union when the token is \<^verbatim>\<open>OR\<close> in any letter case, intersection for every other
  token, for the empty token and for an absent one. The \<^verbatim>\<open>logic\<close> of the first
  condition has no effect on the result.
\<close>

theorem fold_uses_own_logic:
  assumes "conditions co = c # cs" and "\<forall>d \<in> set (c # cs). cond_users ops s d = Inr (S d)"
  shows "execute_cohort ops s co =
      Inr (sorted_list_of_set
        (foldl (\<lambda>acc d. if joins_by_union d then acc \<union> S d else acc \<inter> S d) (S c) cs))
    \<and> execute_cohort ops s (co\<lparr>conditions := c\<lparr>logic := l\<rparr> # cs\<rparr>) = execute_cohort ops s co"
proof
  from assms(2) have c: "cond_users ops s c = Inr (S c)"
    and cs: "\<forall>d \<in> set cs. cond_users ops s d = Inr (S d)"
    by simp_all
  have "cohort_loop ops s None (c # cs) = cohort_loop ops s (Some (S c)) cs"
    using c by simp
  also have "\<dots> = Inr (Some (foldl (\<lambda>acc d. combine acc d (S d)) (S c) cs))"
    using cs by (rule cohort_loop_foldl)
  finally show "execute_cohort ops s co =
      Inr (sorted_list_of_set
        (foldl (\<lambda>acc d. if joins_by_union d then acc \<union> S d else acc \<inter> S d) (S c) cs))"
    using assms(1) by (simp add: execute_cohort_def combine_union)
next
  have "cohort_loop ops s None (c\<lparr>logic := l\<rparr> # cs) = cohort_loop ops s None (c # cs)"
    by (simp add: cond_users_logic split: sum.splits)
  then show "execute_cohort ops s (co\<lparr>conditions := c\<lparr>logic := l\<rparr> # cs\<rparr>) = execute_cohort ops s co"
    using assms(1) by (simp add: execute_cohort_def)
qed

theorem fold_uses_own_logic_witness:
  "conditions ex_cohort = ex_cart_twice # [ex_view_or]
   \<and> cond_users exact_ops ex_system ex_cart_twice = Inr {''A''}
   \<and> cond_users exact_ops ex_system ex_view_or = Inr {''B''}
   \<and> joins_by_union ex_view_or
   \<and> execute_cohort exact_ops ex_system ex_cohort = Inr (sorted_list_of_set ({''A''} \<union> {''B''}))
   \<and> execute_cohort exact_ops ex_system
        (ex_cohort\<lparr>conditions := ex_cart_twice\<lparr>logic := Some ''OR''\<rparr> # [ex_view_or]\<rparr>)
       = execute_cohort exact_ops ex_system ex_cohort"
proof -
  define S where "S = (\<lambda>d. if d = ex_cart_twice then {''A''} else {''B''})"
  have h1: "conditions ex_cohort = ex_cart_twice # [ex_view_or]"
    by (simp add: ex_conds)
  have v1: "cond_users exact_ops ex_system ex_cart_twice = Inr {''A''}"
    by code_simp
  have v2: "cond_users exact_ops ex_system ex_view_or = Inr {''B''}"
    by code_simp
  have ne: "ex_view_or \<noteq> ex_cart_twice"
    by (simp add: ex_view_or_def ex_cart_twice_def mk_condition_def)
  have j: "joins_by_union ex_view_or"
    by (simp add: joins_by_union_def ex_view_or_def mk_condition_def)
  have h2: "\<forall>d \<in> set (ex_cart_twice # [ex_view_or]). cond_users exact_ops ex_system d = Inr (S d)"
    using v1 v2 ne by (simp add: S_def)
  from fold_uses_own_logic [OF h1 h2, of "Some ''OR''"] j ne
  have "execute_cohort exact_ops ex_system ex_cohort = Inr (sorted_list_of_set ({''A''} \<union> {''B''}))
    \<and> execute_cohort exact_ops ex_system
        (ex_cohort\<lparr>conditions := ex_cart_twice\<lparr>logic := Some ''OR''\<rparr> # [ex_view_or]\<rparr>)
       = execute_cohort exact_ops ex_system ex_cohort"
    by (simp add: S_def)
  with h1 v1 v2 j show ?thesis
    by blast
qed

section \<open>The average\<close>

text \<open>
  Claim C1, as stated, fails: \<^verbatim>\<open>mean()\<close> of pandas skips missing values, and
  \<^verbatim>\<open>fillna(0)\<close> is applied to the means, after the averaging. User A has two matching
  events, one priced 1000 and one without a price: the aggregate of the code is 1000,
  the mean with the missing price counted as 0 is 500, and with the threshold 750 the
  code matches A where the stated mean would not.
\<close>

theorem avg_zero_filled_counterexample:
  "operation ex_avg = ''avg'' \<and> property ex_avg = Some ''price''
   \<and> cutoff ex_system ex_avg = Inr (738993 * 86400000000)
   \<and> map price (user_rows ''A'' (filtered ex_system ex_avg (738993 * 86400000000)))
       = [Some 1000, None]
   \<and> mean_zero_filled exact_ops
        (user_rows ''A'' (filtered ex_system ex_avg (738993 * 86400000000))) = 500
   \<and> fillna0 (group_mean exact_ops
        (groupby_user_id (filtered ex_system ex_avg (738993 * 86400000000))))
       = [(''A'', 1000), (''B'', 500)]
   \<and> \<not> satisfies ex_avg 500
   \<and> users_meeting_condition exact_ops ex_system ex_avg = Inr {''A''}"
proof -
  have "operation ex_avg = ''avg'' \<and> property ex_avg = Some ''price''"
    by (simp add: ex_avg_def mk_condition_def)
  moreover have "cutoff ex_system ex_avg = Inr (738993 * 86400000000)"
    by code_simp
  moreover have "map price (user_rows ''A'' (filtered ex_system ex_avg (738993 * 86400000000)))
      = [Some 1000, None]"
    by code_simp
  moreover have "mean_zero_filled exact_ops
      (user_rows ''A'' (filtered ex_system ex_avg (738993 * 86400000000))) = 500"
    by code_simp
  moreover have "fillna0 (group_mean exact_ops
      (groupby_user_id (filtered ex_system ex_avg (738993 * 86400000000))))
      = [(''A'', 1000), (''B'', 500)]"
    by code_simp
  moreover have "\<not> satisfies ex_avg 500"
    by (simp add: satisfies_def ex_avg_def mk_condition_def)
  moreover have "users_meeting_condition exact_ops ex_system ex_avg = Inr {''A''}"
    by code_simp
  ultimately show ?thesis
    by blast
qed

text \<open>
  Claim C1, amended. For a condition with operation \<^verbatim>\<open>avg\<close> and property \<^verbatim>\<open>price\<close>
  whose cutoff instant can be computed, the aggregate of a user is the mean that pandas
  computes from the prices of those of the user's matching events that have a price
  (events without a price are skipped, in the sum and in the count), and 0 when none
  of them has a price; the raw matches are the users with a matching event whose
  aggregate satisfies the comparison.
\<close>

theorem avg_skips_missing:
  assumes "operation c = ''avg''" and "property c = Some ''price''" and "cutoff s c = Inr t"
  shows "users_meeting_condition ops s c =
     Inr {u \<in> user_id ` set (filtered s c t).
            satisfies c (mean_present ops (user_rows u (filtered s c t)))}"
proof -
  from assms(2) have p: "prop_of c = ''price''"
    by (simp add: prop_of_def)
  have "matching_users ops s c t =
      Inr (compare_users c (fillna0 (group_mean ops (groupby_user_id (filtered s c t)))))"
    using assms(1) p
    by (simp add: matching_users_def Let_def groupby_Nil group_mean_def fillna0_def
        compare_users_Nil)
  then show ?thesis
    using assms(3)
    by (simp add: users_meeting_condition_def group_mean_rows compare_users_rows)
qed

theorem avg_skips_missing_witness:
  "operation ex_avg = ''avg'' \<and> property ex_avg = Some ''price''
   \<and> cutoff ex_system ex_avg = Inr (738993 * 86400000000)
   \<and> mean_present exact_ops (user_rows ''A'' (filtered ex_system ex_avg (738993 * 86400000000))) = 1000
   \<and> mean_present exact_ops (user_rows ''B'' (filtered ex_system ex_avg (738993 * 86400000000))) = 500
   \<and> users_meeting_condition exact_ops ex_system ex_avg = Inr {''A''}"
proof -
  let ?t = "738993 * 86400000000 :: int"
  have h1: "operation ex_avg = ''avg''" and h2: "property ex_avg = Some ''price''"
    by (simp_all add: ex_avg_def mk_condition_def)
  have h3: "cutoff ex_system ex_avg = Inr ?t"
    by code_simp
  have a: "mean_present exact_ops (user_rows ''A'' (filtered ex_system ex_avg ?t)) = 1000"
    by code_simp
  have b: "mean_present exact_ops (user_rows ''B'' (filtered ex_system ex_avg ?t)) = 500"
    by code_simp
  have u: "user_id ` set (filtered ex_system ex_avg ?t) = {''A'', ''B''}"
    by (auto simp: filtered_def ex_system_def ex_events_def mk_event_def ex_avg_def
        mk_condition_def)
  have s: "satisfies ex_avg 1000" "\<not> satisfies ex_avg 500"
    by (simp_all add: satisfies_def ex_avg_def mk_condition_def)
  have "{u \<in> {''A'', ''B''}.
      satisfies ex_avg (mean_present exact_ops (user_rows u (filtered ex_system ex_avg ?t)))}
      = {''A''}"
    using a b s by auto
  with avg_skips_missing [OF h1 h2 h3, of exact_ops] u
  have "users_meeting_condition exact_ops ex_system ex_avg = Inr {''A''}"
    by simp
  with h1 h2 h3 a b show ?thesis
    by blast
qed

end
